theory Spec2Isabelle
  imports
    Main
    "HOL-Library.Multiset"
    "HOL-Library.Sublist"
    "HOL-Library.Char_ord"
    "HOL-Library.List_Lexorder"
    "HOL-Library.Product_Lexorder"
begin

section \<open>Python values used by the tools\<close>

text \<open>
  Exceptions that the modelled functions can raise. A function that can raise returns
  \<open>py_exception + 'a\<close>, with \<open>Inl\<close> for the raised exception. \<open>ExternalError\<close> stands for
  whatever an external collaborator (language model, retriever, agent executor) raises.
\<close>

datatype py_exception =
    FileNotFoundError string
  | KeyError string
  | IndexError
  | ExternalError string

definition newline :: string where
  "newline = [CHR 0x0A]"

text \<open>\<open>str(n)\<close> for a Python \<open>int\<close>, as an f-string formats it.\<close>

definition digit_char :: "nat \<Rightarrow> char" where
  "digit_char d = ''0123456789'' ! d"

fun str_nat :: "nat \<Rightarrow> string" where
  "str_nat n = (if n < 10 then [digit_char n] else str_nat (n div 10) @ [digit_char (n mod 10)])"

declare str_nat.simps [simp del]

definition str_int :: "int \<Rightarrow> string" where
  "str_int i = (if i < 0 then CHR ''-'' # str_nat (nat (- i)) else str_nat (nat i))"

text \<open>\<open>sep.join(xs)\<close>.\<close>

fun str_join :: "string \<Rightarrow> string list \<Rightarrow> string" where
  "str_join sep [] = []"
| "str_join sep [x] = x"
| "str_join sep (x # y # ys) = x @ sep @ str_join sep (y # ys)"

text \<open>
  Index normalisation shared by \<open>list.insert\<close> and slicing: a negative index counts from
  the end, and the result is clamped to \<open>[0, len]\<close>.
\<close>

definition clamp_index :: "nat \<Rightarrow> int \<Rightarrow> nat" where
  "clamp_index n i = (if i < 0 then nat (max 0 (int n + i)) else nat (min i (int n)))"

text \<open>\<open>xs.insert(i, x)\<close>, returning the updated list.\<close>

definition py_insert :: "'a list \<Rightarrow> int \<Rightarrow> 'a \<Rightarrow> 'a list" where
  "py_insert xs i x = (let j = clamp_index (length xs) i in take j xs @ [x] @ drop j xs)"

text \<open>\<open>xs[start:end]\<close>, where \<open>None\<close> stands for an omitted bound.\<close>

definition py_slice :: "'a list \<Rightarrow> int option \<Rightarrow> int option \<Rightarrow> 'a list" where
  "py_slice xs start end =
     (let lo = (case start of None \<Rightarrow> 0 | Some i \<Rightarrow> clamp_index (length xs) i);
          hi = (case end of None \<Rightarrow> length xs | Some i \<Rightarrow> clamp_index (length xs) i)
      in drop lo (take hi xs))"

section \<open>The workspace and text files\<close>

text \<open>
  The working directory maps a file name to the text of the file, as a text-mode
  \<open>open\<close> reads it (line ends are \<open>newline\<close>). Opening a missing file for reading
  raises \<open>FileNotFoundError\<close>.
\<close>

type_synonym workspace = "string \<rightharpoonup> string"

text \<open>
  \<open>file.readlines()\<close>: the lines of the text, each with its terminating newline; the
  last line has none when the text does not end with one.
\<close>

fun split_lines :: "string \<Rightarrow> string \<Rightarrow> string list" where
  "split_lines acc [] = (if acc = [] then [] else [acc])"
| "split_lines acc (c # cs) =
     (if c = CHR 0x0A then (acc @ [c]) # split_lines [] cs else split_lines (acc @ [c]) cs)"

definition readlines :: "string \<Rightarrow> string list" where
  "readlines content = split_lines [] content"

text \<open>\<open>file.writelines(lines)\<close> on a file opened with \<open>"w"\<close>: the text is the concatenation.\<close>

definition writelines :: "string list \<Rightarrow> string" where
  "writelines lines = concat lines"

section \<open>Document tools (\<open>src/tools/document.py\<close>)\<close>

subsection \<open>\<open>read_document\<close>\<close>

definition read_document ::
  "workspace \<Rightarrow> string \<Rightarrow> int option \<Rightarrow> int option \<Rightarrow> py_exception + string" where
  "read_document working_directory file_name start end =
     (case working_directory file_name of
        None \<Rightarrow> Inl (FileNotFoundError file_name)
      | Some content \<Rightarrow>
          (let lines = readlines content;
               start' = (if start \<noteq> None then Some 0 else start)
           in Inr (str_join newline (py_slice lines start' end))))"

subsection \<open>\<open>edit_document\<close>\<close>

text \<open>
  The \<open>inserts\<close> dictionary is the list of its items in iteration order; its keys are
  distinct. \<open>sorted(inserts.items())\<close> sorts the pairs lexicographically, which is
  \<open>sort\<close> on \<open>int \<times> string\<close>.
\<close>

definition out_of_range_message :: "int \<Rightarrow> string" where
  "out_of_range_message line_number =
     ''Error: Line number '' @ str_int line_number @ '' is out of range.''"

definition edited_message :: "string \<Rightarrow> string" where
  "edited_message file_name = ''Document edited and saved to '' @ file_name"

text \<open>
  The interval of admissible line numbers for a list of \<open>line_count\<close> lines:
  \<open>[1, line_count + 1]\<close>.
\<close>

definition in_range :: "nat \<Rightarrow> int \<Rightarrow> bool" where
  "in_range line_count line_number = (1 \<le> line_number \<and> line_number \<le> int line_count + 1)"

text \<open>
  The \<open>for\<close> loop over the sorted inserts: \<open>Inl line_number\<close> when the loop returns early
  at \<open>line_number\<close>, \<open>Inr lines\<close> with the final line list when it runs to its end.
\<close>

fun apply_inserts :: "string list \<Rightarrow> (int \<times> string) list \<Rightarrow> int + string list" where
  "apply_inserts lines [] = Inr lines"
| "apply_inserts lines ((line_number, text) # rest) =
     (if 1 \<le> line_number \<and> line_number \<le> int (length lines) + 1
      then apply_inserts (py_insert lines (line_number - 1) (text @ newline)) rest
      else Inl line_number)"

definition edit_document ::
  "workspace \<Rightarrow> string \<Rightarrow> (int \<times> string) list \<Rightarrow> (py_exception + string) \<times> workspace" where
  "edit_document working_directory file_name inserts =
     (case working_directory file_name of
        None \<Rightarrow> (Inl (FileNotFoundError file_name), working_directory)
      | Some content \<Rightarrow>
          (let lines = readlines content;
               sorted_inserts = sort inserts
           in case apply_inserts lines sorted_inserts of
                Inl line_number \<Rightarrow> (Inr (out_of_range_message line_number), working_directory)
              | Inr lines' \<Rightarrow>
                  (Inr (edited_message file_name),
                   working_directory(file_name \<mapsto> writelines lines'))))"

subsection \<open>\<open>reference_previous_responses\<close>\<close>

text \<open>
  The retriever is an optional external collaborator; what it returns is opaque to the
  tool, which hands it back as it is.
\<close>

datatype 'r tool_output = Str string | Retrieved 'r

definition reference_previous_responses ::
  "(string \<Rightarrow> py_exception + 'r) option \<Rightarrow> string \<Rightarrow> py_exception + 'r tool_output" where
  "reference_previous_responses complaint_retriever query =
     (case complaint_retriever of
        None \<Rightarrow> Inr (Str ''No complaint retriever available'')
      | Some retriever \<Rightarrow>
          (case retriever query of Inl e \<Rightarrow> Inl e | Inr docs \<Rightarrow> Inr (Retrieved docs)))"

section \<open>Messages and graph state (\<open>src/states/types.py\<close>)\<close>

text \<open>\<open>HumanMessage(content=..., name=...)\<close>.\<close>

record message =
  content :: string
  name :: "string option"

text \<open>
  The state dictionaries \<open>ResearchTeamState\<close>, \<open>DocWritingState\<close> and \<open>SupervisorState\<close>,
  and the partial dictionaries that nodes return. A field is \<open>None\<close> when the dictionary
  has no such key; reading a missing key raises \<open>KeyError\<close>.
\<close>

record graph_state =
  messages :: "message list option"
  team_members :: "string option"
  next_label :: "string option"
  current_files :: "string option"

definition empty_dict :: graph_state where
  "empty_dict = \<lparr>messages = None, team_members = None, next_label = None, current_files = None\<rparr>"

text \<open>Runnable composition \<open>f | g\<close>: an exception of \<open>f\<close> ends the pipeline.\<close>

definition pipe :: "('a \<Rightarrow> py_exception + 'b) \<Rightarrow> ('b \<Rightarrow> py_exception + 'c) \<Rightarrow> 'a \<Rightarrow> py_exception + 'c" where
  "pipe f g x = (case f x of Inl e \<Rightarrow> Inl e | Inr y \<Rightarrow> g y)"

section \<open>Node functions (\<open>src/nodes/common.py\<close>)\<close>

text \<open>
  An agent executor is an external collaborator: given the state it returns its output
  text or raises.
\<close>

type_synonym agent = "graph_state \<Rightarrow> py_exception + string"

definition agent_node :: "graph_state \<Rightarrow> agent \<Rightarrow> string \<Rightarrow> py_exception + graph_state" where
  "agent_node state agent node_name =
     (case agent state of
        Inl e \<Rightarrow> Inl e
      | Inr output \<Rightarrow>
          Inr (empty_dict\<lparr>messages := Some [\<lparr>content = output, name = Some node_name\<rparr>]\<rparr>))"

definition enter_chain :: "string \<Rightarrow> string list option \<Rightarrow> graph_state" where
  "enter_chain msg members =
     (let results = empty_dict\<lparr>messages := Some [\<lparr>content = msg, name = None\<rparr>]\<rparr>
      in case members of
           None \<Rightarrow> results
         | Some ms \<Rightarrow> if ms \<noteq> [] then results\<lparr>team_members := Some (str_join '', '' ms)\<rparr>
                     else results)"

definition get_last_message :: "graph_state \<Rightarrow> py_exception + string" where
  "get_last_message state =
     (case messages state of
        None \<Rightarrow> Inl (KeyError ''messages'')
      | Some ms \<Rightarrow> if ms = [] then Inl IndexError else Inr (content (last ms)))"

definition join_graph :: "graph_state \<Rightarrow> py_exception + graph_state" where
  "join_graph response =
     (case messages response of
        None \<Rightarrow> Inl (KeyError ''messages'')
      | Some ms \<Rightarrow> if ms = [] then Inl IndexError
                  else Inr (empty_dict\<lparr>messages := Some [last ms]\<rparr>))"

section \<open>Team supervisors (\<open>src/agents\<close>)\<close>

text \<open>
  The decision backend is called with the system prompt, the conversation and the
  list of options, with the function \<open>route\<close> forced. The output parser returns the
  arguments object of that call as it is, and the supervisor returns what the parser
  returns. The backend is an external collaborator: it answers with an object or
  raises. The object is a dictionary, modelled over the keys of the state. The schema
  sent to the backend asks for the one key \<open>next\<close> with one of the options as its
  value; the supervisor compares the answer neither with the schema nor with the
  options.
\<close>

type_synonym backend = "string \<Rightarrow> string list \<Rightarrow> message list \<Rightarrow> py_exception + graph_state"

definition create_team_supervisor ::
  "backend \<Rightarrow> string \<Rightarrow> string list \<Rightarrow> graph_state \<Rightarrow> py_exception + graph_state" where
  "create_team_supervisor llm system_prompt members state =
     (let options = ''FINISH'' # members
      in case messages state of
           None \<Rightarrow> Inl (KeyError ''messages'')
         | Some ms \<Rightarrow> llm system_prompt options ms)"

definition create_research_supervisor ::
  "backend \<Rightarrow> string list option \<Rightarrow> graph_state \<Rightarrow> py_exception + graph_state" where
  "create_research_supervisor llm members =
     create_team_supervisor llm
       (''You are a supervisor tasked with managing a conversation between the''
        @ '' following workers:  Search, LoanRetriever. Given the following user request,''
        @ '' determine the subject to be researched and respond with the worker to act next. Each worker will perform a''
        @ '' task and respond with their results and status. ''
        @ '' You should never ask your team to do anything beyond research. They are not required to write content or posts.''
        @ '' You should only pass tasks to workers that are specifically research focused.''
        @ '' When finished, respond with FINISH.'')
       (case members of None \<Rightarrow> [''Search'', ''LoanRetriever''] | Some ms \<Rightarrow> ms)"

definition create_doc_writing_supervisor ::
  "backend \<Rightarrow> string list option \<Rightarrow> graph_state \<Rightarrow> py_exception + graph_state" where
  "create_doc_writing_supervisor llm members =
     create_team_supervisor llm
       (''You are a supervisor tasked with managing a conversation between the''
        @ '' following workers: {team_members}. You should always verify the technical''
        @ '' contents after any edits are made. ''
        @ ''Given the following user request,''
        @ '' respond with the worker to act next. Each worker will perform a''
        @ '' task and respond with their results and status. When each team is finished,''
        @ '' you must respond with FINISH.'')
       (case members of
          None \<Rightarrow> [''DocWriter'', ''NoteTaker'', ''DopenessEditor'', ''CopyEditor'']
        | Some ms \<Rightarrow> ms)"

section \<open>The graph library\<close>

text \<open>
  Modelled from the spec: the graph builder of the graph library, an external
  dependency that is not part of the sources. Section 4.5: a graph is a set of named
  nodes, unconditional edges, conditional edges keyed by the routing decision, and an
  initial node. The builder is the record of what the construction calls declare: named
  node functions, unconditional edges, conditional edges (source node, router, table
  from labels to nodes) and the entry point.
\<close>

type_synonym node_fn = "graph_state \<Rightarrow> py_exception + graph_state"

type_synonym router = "graph_state \<Rightarrow> py_exception + string"

record state_graph =
  nodes :: "(string \<times> node_fn) list"
  edges :: "(string \<times> string) list"
  branches :: "(string \<times> router \<times> (string \<times> string) list) list"
  entry_point :: "string option"

definition END :: string where
  "END = ''__end__''"

definition StateGraph :: state_graph where
  "StateGraph = \<lparr>nodes = [], edges = [], branches = [], entry_point = None\<rparr>"

definition add_node :: "string \<Rightarrow> node_fn \<Rightarrow> state_graph \<Rightarrow> state_graph" where
  "add_node key action g = g\<lparr>nodes := nodes g @ [(key, action)]\<rparr>"

definition add_edge :: "string \<Rightarrow> string \<Rightarrow> state_graph \<Rightarrow> state_graph" where
  "add_edge start_key end_key g = g\<lparr>edges := edges g @ [(start_key, end_key)]\<rparr>"

definition add_conditional_edges ::
  "string \<Rightarrow> router \<Rightarrow> (string \<times> string) list \<Rightarrow> state_graph \<Rightarrow> state_graph" where
  "add_conditional_edges source path path_map g =
     g\<lparr>branches := branches g @ [(source, path, path_map)]\<rparr>"

definition set_entry_point :: "string \<Rightarrow> state_graph \<Rightarrow> state_graph" where
  "set_entry_point key g = g\<lparr>entry_point := Some key\<rparr>"

text \<open>The router of every conditional edge: \<open>lambda x: x["next"]\<close>.\<close>

definition route_next :: router where
  "route_next x = (case next_label x of None \<Rightarrow> Inl (KeyError ''next'') | Some v \<Rightarrow> Inr v)"

section \<open>The three graphs (\<open>src/graphs\<close>)\<close>

text \<open>
  The agent executors behind the worker nodes are parameters. For the authoring team
  each of them stands for the agent composed after \<open>prelude\<close>.
\<close>

definition create_research_graph :: "backend \<Rightarrow> agent \<Rightarrow> agent \<Rightarrow> state_graph" where
  "create_research_graph llm search_agent research_agent =
     (let search_node = (\<lambda>state. agent_node state search_agent ''Search'');
          research_node = (\<lambda>state. agent_node state research_agent ''LoanRetriever'');
          supervisor_agent = create_research_supervisor llm None;
          research_graph = StateGraph;
          research_graph = add_node ''Search'' search_node research_graph;
          research_graph = add_node ''LoanRetriever'' research_node research_graph;
          research_graph = add_node ''supervisor'' supervisor_agent research_graph;
          research_graph = add_edge ''Search'' ''supervisor'' research_graph;
          research_graph = add_edge ''LoanRetriever'' ''supervisor'' research_graph;
          research_graph = add_conditional_edges ''supervisor'' route_next
            [(''Search'', ''Search''), (''LoanRetriever'', ''LoanRetriever''), (''FINISH'', END)]
            research_graph;
          research_graph = set_entry_point ''supervisor'' research_graph
      in research_graph)"

definition create_authoring_graph ::
  "backend \<Rightarrow> agent \<Rightarrow> agent \<Rightarrow> agent \<Rightarrow> agent \<Rightarrow> state_graph" where
  "create_authoring_graph llm doc_writer note_taker copy_editor dopeness_editor =
     (let doc_writing_node = (\<lambda>state. agent_node state doc_writer ''DocWriter'');
          note_taking_node = (\<lambda>state. agent_node state note_taker ''NoteTaker'');
          copy_editing_node = (\<lambda>state. agent_node state copy_editor ''CopyEditor'');
          dopeness_node = (\<lambda>state. agent_node state dopeness_editor ''DopenessEditor'');
          supervisor = create_doc_writing_supervisor llm None;
          authoring_graph = StateGraph;
          authoring_graph = add_node ''DocWriter'' doc_writing_node authoring_graph;
          authoring_graph = add_node ''NoteTaker'' note_taking_node authoring_graph;
          authoring_graph = add_node ''CopyEditor'' copy_editing_node authoring_graph;
          authoring_graph = add_node ''DopenessEditor'' dopeness_node authoring_graph;
          authoring_graph = add_node ''supervisor'' supervisor authoring_graph;
          authoring_graph = add_edge ''DocWriter'' ''supervisor'' authoring_graph;
          authoring_graph = add_edge ''NoteTaker'' ''supervisor'' authoring_graph;
          authoring_graph = add_edge ''CopyEditor'' ''supervisor'' authoring_graph;
          authoring_graph = add_edge ''DopenessEditor'' ''supervisor'' authoring_graph;
          authoring_graph = add_conditional_edges ''supervisor'' route_next
            [(''DocWriter'', ''DocWriter''), (''NoteTaker'', ''NoteTaker''),
             (''CopyEditor'', ''CopyEditor''), (''DopenessEditor'', ''DopenessEditor''),
             (''FINISH'', END)]
            authoring_graph;
          authoring_graph = set_entry_point ''supervisor'' authoring_graph
      in authoring_graph)"

text \<open>A chain is a compiled team graph behind \<open>enter_chain\<close>: from a request to a final state.\<close>

type_synonym chain = "string \<Rightarrow> py_exception + graph_state"

definition create_supervisor_graph :: "backend \<Rightarrow> chain \<Rightarrow> chain \<Rightarrow> state_graph" where
  "create_supervisor_graph llm research_chain authoring_chain =
     (let supervisor_node = create_team_supervisor llm
            (''You are a supervisor tasked with managing a conversation between the''
             @ '' following teams: {team_members}. Given the following user request,''
             @ '' respond with the worker to act next. Each worker will perform a''
             @ '' task and respond with their results and status. When all workers are finished,''
             @ '' you must respond with FINISH.'')
            [''Research team'', ''Response team''];
          super_graph = StateGraph;
          super_graph = add_node ''Research team''
            (pipe (pipe get_last_message research_chain) join_graph) super_graph;
          super_graph = add_node ''Response team''
            (pipe (pipe get_last_message authoring_chain) join_graph) super_graph;
          super_graph = add_node ''supervisor'' supervisor_node super_graph;
          super_graph = add_edge ''Research team'' ''supervisor'' super_graph;
          super_graph = add_edge ''Response team'' ''supervisor'' super_graph;
          super_graph = add_conditional_edges ''supervisor'' route_next
            [(''Response team'', ''Response team''), (''Research team'', ''Research team''),
             (''FINISH'', END)]
            super_graph;
          super_graph = set_entry_point ''supervisor'' super_graph
      in super_graph)"

section \<open>Graph execution\<close>

text \<open>
  The executor of the graph library is not part of the sources; it is modelled from the
  specification. The message list of a state; a state without the key has none.
\<close>

definition msgs :: "graph_state \<Rightarrow> message list" where
  "msgs s = (case messages s of None \<Rightarrow> [] | Some ms \<Rightarrow> ms)"

text \<open>
  Modelled from the spec: the executor's rule for the field \<open>messages\<close> (section 4.1):
  the message list that a node returns is concatenated onto the existing one, by the
  reducer \<open>operator.add\<close> that \<open>src/states/types.py\<close> declares for the field.
\<close>

definition merge_messages :: "message list option \<Rightarrow> message list option \<Rightarrow> message list option" where
  "merge_messages old new =
     (case new of
        None \<Rightarrow> old
      | Some added \<Rightarrow> Some ((case old of None \<Rightarrow> [] | Some ms \<Rightarrow> ms) @ added))"

text \<open>
  Modelled from the spec: the executor's rule for every field other than \<open>messages\<close>
  (section 4.1): replaced by what the partial state holds.
\<close>

definition replace_field :: "'a option \<Rightarrow> 'a option \<Rightarrow> 'a option" where
  "replace_field old new = (case new of None \<Rightarrow> old | Some v \<Rightarrow> Some v)"

text \<open>
  Modelled from the spec: the executor's merge of a partial state into the state
  (section 4.1), field by field.
\<close>

definition merge_state :: "graph_state \<Rightarrow> graph_state \<Rightarrow> graph_state" where
  "merge_state s delta =
     \<lparr>messages = merge_messages (messages s) (messages delta),
      team_members = replace_field (team_members s) (team_members delta),
      next_label = replace_field (next_label s) (next_label delta),
      current_files = replace_field (current_files s) (current_files delta)\<rparr>"

text \<open>
  Modelled from the spec: the conditional transitions of the executor (section 4.5). A
  conditional edge out of a node calls its router on the state and looks the label up
  in its table; a label with no entry in the table is an error, and there is no default
  entry.
\<close>

fun branch_targets ::
  "(string \<times> router \<times> (string \<times> string) list) list \<Rightarrow> string \<Rightarrow> graph_state
     \<Rightarrow> py_exception + string list" where
  "branch_targets [] node st = Inr []"
| "branch_targets ((source, path, path_map) # bs) node st =
     (if source = node then
        (case path st of
           Inl e \<Rightarrow> Inl e
         | Inr label \<Rightarrow>
             (case map_of path_map label of
                None \<Rightarrow> Inl (KeyError label)
              | Some target \<Rightarrow>
                  (case branch_targets bs node st of
                     Inl e \<Rightarrow> Inl e
                   | Inr targets \<Rightarrow> Inr (target # targets))))
      else branch_targets bs node st)"

text \<open>
  Modelled from the spec: all transitions of the executor out of a node (section 4.5).
  An unconditional edge out of the node always fires.
\<close>

definition successors :: "state_graph \<Rightarrow> string \<Rightarrow> graph_state \<Rightarrow> py_exception + string list" where
  "successors g node st =
     (case branch_targets (branches g) node st of
        Inl e \<Rightarrow> Inl e
      | Inr targets \<Rightarrow> Inr (map snd (filter (\<lambda>e. fst e = node) (edges g)) @ targets))"

text \<open>
  Modelled from the spec: one step of the executor at a node: run the node function,
  merge what it returns, select the transitions out of the node.
\<close>

definition step ::
  "state_graph \<Rightarrow> string \<times> graph_state \<Rightarrow> py_exception + (string list \<times> graph_state)" where
  "step g c =
     (case map_of (nodes g) (fst c) of
        None \<Rightarrow> Inl (KeyError (fst c))
      | Some action \<Rightarrow>
          (case action (snd c) of
             Inl e \<Rightarrow> Inl e
           | Inr delta \<Rightarrow>
               (let st' = merge_state (snd c) delta
                in case successors g (fst c) st' of
                     Inl e \<Rightarrow> Inl e
                   | Inr targets \<Rightarrow> Inr (targets, st'))))"

text \<open>
  Modelled from the spec: the runs of the executor (sections 4.5 and 5). Execution is
  sequential: each (node, state) pair of a run is followed by a pair that a step from it
  yields.
\<close>

fun follows :: "state_graph \<Rightarrow> (string \<times> graph_state) list \<Rightarrow> bool" where
  "follows g [] = True"
| "follows g [c] = True"
| "follows g (c # c' # cs) =
     ((case step g c of
         Inl e \<Rightarrow> False
       | Inr (targets, st') \<Rightarrow> fst c' \<in> set targets \<and> snd c' = st')
      \<and> follows g (c' # cs))"

text \<open>Modelled from the spec: a run starts at the entry point (section 4.5).\<close>

definition is_run :: "state_graph \<Rightarrow> (string \<times> graph_state) list \<Rightarrow> bool" where
  "is_run g cs = (cs \<noteq> [] \<and> entry_point g = Some (fst (hd cs)) \<and> follows g cs)"

text \<open>The workers of a graph are its nodes other than the supervisor.\<close>

definition workers :: "state_graph \<Rightarrow> string list" where
  "workers g = filter (\<lambda>n. n \<noteq> ''supervisor'') (map fst (nodes g))"


section \<open>Example inputs\<close>

definition example_llm :: backend where
  "example_llm system_prompt options ms = Inr (empty_dict\<lparr>next_label := Some ''Search''\<rparr>)"

definition stray_llm :: backend where
  "stray_llm system_prompt options ms = Inr (empty_dict\<lparr>next_label := Some ''Writer''\<rparr>)"

definition chatty_llm :: backend where
  "chatty_llm system_prompt options ms =
     Inr \<lparr>messages = Some [\<lparr>content = ''noted'', name = None\<rparr>],
          team_members = Some ''nobody'',
          next_label = Some ''Search'',
          current_files = None\<rparr>"

definition example_agent :: agent where
  "example_agent state = Inr ''found''"

definition example_state :: graph_state where
  "example_state = enter_chain ''What are Pell Grants?'' None"

definition example_run :: "(string \<times> graph_state) list" where
  "example_run =
     [(''supervisor'', example_state),
      (''Search'', example_state\<lparr>next_label := Some ''Search''\<rparr>),
      (''supervisor'',
       example_state\<lparr>messages := Some [\<lparr>content = ''What are Pell Grants?'', name = None\<rparr>,
                                       \<lparr>content = ''found'', name = Some ''Search''\<rparr>],
                     next_label := Some ''Search''\<rparr>)]"


section \<open>Properties of the document tools\<close>

lemma concat_split_lines: "concat (split_lines acc s) = acc @ s"
  by (induction s arbitrary: acc) auto

lemma writelines_readlines: "writelines (readlines doc) = doc"
  by (simp add: writelines_def readlines_def concat_split_lines)

text \<open>
  Claim C5. With no retriever configured, \<open>reference_previous_responses\<close> returns the
  sentinel text for every query, and raises nothing.
\<close>

theorem reference_previous_responses_no_retriever:
  "reference_previous_responses None query = Inr (Str ''No complaint retriever available'')"
  by (simp add: reference_previous_responses_def)

text \<open>
  Claim C3. A supplied start index is replaced by 0 before slicing: for every supplied
  \<open>s\<close>, reading with \<open>start = s\<close> is reading with \<open>start = 0\<close>, and what is returned is
  the join of a leading segment of the file's lines.
\<close>

theorem read_document_start_forced_to_zero:
  "read_document wd file_name (Some s) e = read_document wd file_name (Some 0) e
   \<and> read_document wd file_name (Some s) e =
       (case wd file_name of
          None \<Rightarrow> Inl (FileNotFoundError file_name)
        | Some doc \<Rightarrow>
            Inr (str_join newline
                  (take (case e of None \<Rightarrow> length (readlines doc)
                                 | Some i \<Rightarrow> clamp_index (length (readlines doc)) i)
                        (readlines doc))))"
  by (simp add: read_document_def py_slice_def clamp_index_def Let_def split: option.splits)

lemma py_insert_in_range:
  assumes "1 \<le> k" "k \<le> int (length xs) + 1"
  shows "py_insert xs (k - 1) x = take (nat (k - 1)) xs @ x # drop (nat (k - 1)) xs"
  using assms by (simp add: py_insert_def clamp_index_def Let_def min_def)

lemma length_py_insert: "length (py_insert xs i x) = Suc (length xs)"
  by (simp add: py_insert_def clamp_index_def Let_def)

lemma subseq_insert_at: "subseq xs (take j xs @ x # drop j xs)"
proof -
  have "subseq (take j xs @ drop j xs) (take j xs @ x # drop j xs)"
    by (intro list_emb_append_mono list_emb_Cons subseq_order.order_refl)
  then show ?thesis by simp
qed

lemma apply_inserts_length:
  "apply_inserts lines s = Inr lines' \<Longrightarrow> length lines' = length lines + length s"
  by (induction lines s rule: apply_inserts.induct) (auto simp: length_py_insert split: if_splits)

lemma apply_inserts_Inl_iff:
  "(\<exists>k. apply_inserts lines s = Inl k) \<longleftrightarrow>
   (\<exists>i<length s. \<not> in_range (length lines + i) (fst (s ! i)))"
proof (induction lines s rule: apply_inserts.induct)
  case (1 lines)
  then show ?case by simp
next
  case (2 lines line_number tx rest)
  show ?case
  proof (cases "in_range (length lines) line_number")
    case True
    then have "(\<exists>k. apply_inserts lines ((line_number, tx) # rest) = Inl k) \<longleftrightarrow>
       (\<exists>i<length rest. \<not> in_range (Suc (length lines) + i) (fst (rest ! i)))"
      using 2 by (simp add: in_range_def length_py_insert)
    also have "\<dots> \<longleftrightarrow> (\<exists>i<length ((line_number, tx) # rest).
        \<not> in_range (length lines + i) (fst (((line_number, tx) # rest) ! i)))"
      using True by (auto simp: less_Suc_eq_0_disj)
    finally show ?thesis .
  next
    case False
    then show ?thesis by (auto simp: in_range_def)
  qed
qed

lemma apply_inserts_Inl_key:
  "apply_inserts lines s = Inl k \<Longrightarrow> k \<in> fst ` set s"
  by (induction lines s rule: apply_inserts.induct) (auto split: if_splits)

lemma apply_inserts_subseq:
  "apply_inserts lines s = Inr lines' \<Longrightarrow> subseq lines lines'"
proof (induction lines s rule: apply_inserts.induct)
  case (1 lines)
  then show ?case by simp
next
  case (2 lines line_number tx rest)
  then have r: "1 \<le> line_number" "line_number \<le> int (length lines) + 1"
    by (auto split: if_splits)
  let ?l = "py_insert lines (line_number - 1) (tx @ newline)"
  have "subseq lines ?l"
    using r by (simp add: py_insert_in_range subseq_insert_at)
  moreover have "subseq ?l lines'" using 2 r by simp
  ultimately show ?case by (rule subseq_order.order_trans)
qed

lemma apply_inserts_below:
  "apply_inserts lines s = Inr lines' \<Longrightarrow> \<forall>(k, t) \<in> set s. int j < k - 1 \<Longrightarrow>
   lines' ! j = lines ! j"
proof (induction lines s rule: apply_inserts.induct)
  case (1 lines)
  then show ?case by simp
next
  case (2 lines line_number tx rest)
  then have r: "1 \<le> line_number" "line_number \<le> int (length lines) + 1"
    by (auto split: if_splits)
  let ?l = "py_insert lines (line_number - 1) (tx @ newline)"
  have "lines' ! j = ?l ! j" using 2 r by auto
  also have "?l ! j = lines ! j"
    using 2(3) r by (auto simp: py_insert_in_range nth_append)
  finally show ?case .
qed

lemma apply_inserts_placed:
  "apply_inserts lines s = Inr lines' \<Longrightarrow> sorted_wrt (<) (map fst s) \<Longrightarrow>
   (k, t) \<in> set s \<Longrightarrow> lines' ! nat (k - 1) = t @ newline"
proof (induction lines s rule: apply_inserts.induct)
  case (1 lines)
  then show ?case by simp
next
  case (2 lines line_number tx rest)
  then have r: "1 \<le> line_number" "line_number \<le> int (length lines) + 1"
    by (auto split: if_splits)
  let ?l = "py_insert lines (line_number - 1) (tx @ newline)"
  have rest: "apply_inserts ?l rest = Inr lines'" using 2(2) r by simp
  show ?case
  proof (cases "(k, t) \<in> set rest")
    case True
    then show ?thesis using 2 r rest by simp
  next
    case False
    then have eq: "k = line_number" "t = tx" using 2(4) by auto
    have "\<forall>(k', t') \<in> set rest. int (nat (line_number - 1)) < k' - 1"
      using 2(3) r by auto
    then have "lines' ! nat (line_number - 1) = ?l ! nat (line_number - 1)"
      using rest by (rule apply_inserts_below[rotated])
    also have "\<dots> = tx @ newline"
      using r by (simp add: py_insert_in_range nth_append)
    finally show ?thesis using eq by simp
  qed
qed

lemma sorted_map_fst: "sorted (s :: (int \<times> string) list) \<Longrightarrow> sorted (map fst s)"
  by (induction s) (auto simp: less_eq_prod_def)

lemma sort_distinct_keys:
  assumes "distinct (map fst (inserts :: (int \<times> string) list))"
  shows "sorted_wrt (<) (map fst (sort inserts))"
proof -
  have "mset (map fst (sort inserts)) = mset (map fst inserts)" by simp
  then have "distinct (map fst (sort inserts))"
    using assms by (metis mset_eq_imp_distinct_iff)
  then show ?thesis by (simp add: strict_sorted_iff sorted_map_fst)
qed

lemma sort_mset_eq: "mset xs = mset ys \<Longrightarrow> sort xs = sort (ys :: (int \<times> string) list)"
  by (metis properties_for_sort sorted_sort mset_sort)

text \<open>
  Claim C1, as the code has it. The result of \<open>edit_document\<close> depends only on the
  items of \<open>inserts\<close>, not on their iteration order: they are applied in ascending
  order of line number. Each insert is placed at index \<open>line_number - 1\<close> of the line
  list as it stands at that moment; no offset is added to the line numbers of later
  inserts. So when the file exists and every insert is in range when applied, the
  written list has one more line per insert, every inserted text (with its newline) is
  line \<open>line_number\<close> of the written list, and the original lines are kept in their
  order.
\<close>

theorem edit_document_ascending_order:
  "(mset inserts' = mset inserts \<longrightarrow>
      edit_document wd f inserts' = edit_document wd f inserts)
   \<and> (wd f = Some doc \<and> distinct (map fst inserts)
        \<and> (\<forall>i<length inserts.
               in_range (length (readlines doc) + i) (fst (sort inserts ! i)))
      \<longrightarrow> (\<exists>lines'. edit_document wd f inserts
                       = (Inr (edited_message f), wd(f \<mapsto> concat lines'))
            \<and> length lines' = length (readlines doc) + length inserts
            \<and> (\<forall>(k, t) \<in> set inserts. lines' ! nat (k - 1) = t @ newline)
            \<and> subseq (readlines doc) lines'))"
proof (intro conjI impI)
  assume "mset inserts' = mset inserts"
  then have "sort inserts' = sort inserts" by (rule sort_mset_eq)
  then show "edit_document wd f inserts' = edit_document wd f inserts"
    by (simp add: edit_document_def Let_def split: option.splits)
next
  assume a: "wd f = Some doc \<and> distinct (map fst inserts)
        \<and> (\<forall>i<length inserts.
               in_range (length (readlines doc) + i) (fst (sort inserts ! i)))"
  then have "\<not> (\<exists>k. apply_inserts (readlines doc) (sort inserts) = Inl k)"
    by (simp add: apply_inserts_Inl_iff)
  then obtain lines' where l: "apply_inserts (readlines doc) (sort inserts) = Inr lines'"
    by (cases "apply_inserts (readlines doc) (sort inserts)") auto
  have "edit_document wd f inserts = (Inr (edited_message f), wd(f \<mapsto> concat lines'))"
    using a l by (simp add: edit_document_def writelines_def)
  moreover have "length lines' = length (readlines doc) + length inserts"
    using apply_inserts_length[OF l] by simp
  moreover have "\<forall>(k, t) \<in> set inserts. lines' ! nat (k - 1) = t @ newline"
    using apply_inserts_placed[OF l sort_distinct_keys] a by auto
  moreover have "subseq (readlines doc) lines'"
    using l by (rule apply_inserts_subseq)
  ultimately show "\<exists>lines'. edit_document wd f inserts
                       = (Inr (edited_message f), wd(f \<mapsto> concat lines'))
            \<and> length lines' = length (readlines doc) + length inserts
            \<and> (\<forall>(k, t) \<in> set inserts. lines' ! nat (k - 1) = t @ newline)
            \<and> subseq (readlines doc) lines'"
    by blast
qed

text \<open>
  On a one-line file, the inserts \<open>{2: "X", 1: "Y"}\<close> give the lines
  \<open>Y\<close>, \<open>X\<close>, original line, and not \<open>Y\<close>, original line, \<open>X\<close>.
\<close>

theorem edit_document_order_counterexample:
  "edit_document [''doc.txt'' \<mapsto> ''orig'' @ newline] ''doc.txt'' [(2, ''X''), (1, ''Y'')]
     = (Inr ''Document edited and saved to doc.txt'',
        [''doc.txt'' \<mapsto> ''Y'' @ newline @ ''X'' @ newline @ ''orig'' @ newline])
   \<and> readlines (''Y'' @ newline @ ''X'' @ newline @ ''orig'' @ newline)
       = [''Y'' @ newline, ''X'' @ newline, ''orig'' @ newline]
   \<and> readlines (''Y'' @ newline @ ''X'' @ newline @ ''orig'' @ newline)
       \<noteq> [''Y'' @ newline, ''orig'' @ newline, ''X'' @ newline]"
  by (simp add: edit_document_def readlines_def newline_def py_insert_def clamp_index_def
      writelines_def edited_message_def)

text \<open>The same inserts, in both iteration orders, on the one-line file.\<close>

theorem edit_document_ascending_order_witness:
  "mset [(1, ''Y''), (2 :: int, ''X'')] = mset [(2, ''X''), (1, ''Y'')]
   \<and> edit_document [''doc.txt'' \<mapsto> ''orig'' @ newline] ''doc.txt'' [(1, ''Y''), (2, ''X'')]
     = edit_document [''doc.txt'' \<mapsto> ''orig'' @ newline] ''doc.txt'' [(2, ''X''), (1, ''Y'')]
   \<and> distinct (map fst [(2 :: int, ''X''), (1, ''Y'')])
   \<and> in_range (length (readlines (''orig'' @ newline)) + 0)
        (fst (sort [(2 :: int, ''X''), (1, ''Y'')] ! 0))
   \<and> in_range (length (readlines (''orig'' @ newline)) + 1)
        (fst (sort [(2 :: int, ''X''), (1, ''Y'')] ! 1))
   \<and> (\<exists>lines'. edit_document [''doc.txt'' \<mapsto> ''orig'' @ newline] ''doc.txt''
                    [(2, ''X''), (1, ''Y'')]
                  = (Inr (edited_message ''doc.txt''),
                     [''doc.txt'' \<mapsto> ''orig'' @ newline](''doc.txt'' \<mapsto> concat lines'))
         \<and> length lines' = 3
         \<and> lines' ! 0 = ''Y'' @ newline
         \<and> lines' ! 1 = ''X'' @ newline
         \<and> subseq [''orig'' @ newline] lines')"
proof -
  let ?wd = "[''doc.txt'' \<mapsto> ''orig'' @ newline]"
  let ?ins = "[(2 :: int, ''X''), (1, ''Y'')]"
  have m: "mset [(1, ''Y''), (2 :: int, ''X'')] = mset ?ins"
    by simp
  have d: "distinct (map fst ?ins)"
    by simp
  have r: "readlines (''orig'' @ newline) = [''orig'' @ newline]"
    by (simp add: readlines_def newline_def)
  have r0: "in_range (length (readlines (''orig'' @ newline)) + 0) (fst (sort ?ins ! 0))"
    by (simp add: readlines_def newline_def in_range_def)
  have r1: "in_range (length (readlines (''orig'' @ newline)) + 1) (fst (sort ?ins ! 1))"
    by (simp add: readlines_def newline_def in_range_def)
  have h: "\<forall>i<length ?ins.
          in_range (length (readlines (''orig'' @ newline)) + i) (fst (sort ?ins ! i))"
    using r0 r1 by (simp add: less_Suc_eq all_conj_distrib)
  note inst = edit_document_ascending_order
      [of "[(1, ''Y''), (2, ''X'')]" ?ins ?wd "''doc.txt''" "''orig'' @ newline"]
  have p1: "edit_document ?wd ''doc.txt'' [(1, ''Y''), (2, ''X'')]
          = edit_document ?wd ''doc.txt'' ?ins"
    using inst m by blast
  have "?wd ''doc.txt'' = Some (''orig'' @ newline)" by simp
  then obtain lines' where l:
    "edit_document ?wd ''doc.txt'' ?ins
       = (Inr (edited_message ''doc.txt''), ?wd(''doc.txt'' \<mapsto> concat lines'))"
    "length lines' = length (readlines (''orig'' @ newline)) + length ?ins"
    "\<forall>(k, t) \<in> set ?ins. lines' ! nat (k - 1) = t @ newline"
    "subseq (readlines (''orig'' @ newline)) lines'"
    using inst d h by blast
  have "length lines' = 3" using l(2) by (simp add: readlines_def newline_def)
  moreover have "lines' ! 0 = ''Y'' @ newline" "lines' ! 1 = ''X'' @ newline"
    using l(3) by simp_all
  moreover have "subseq [''orig'' @ newline] lines'" using l(4) by (simp only: r)
  ultimately have p2: "\<exists>lines'. edit_document ?wd ''doc.txt'' ?ins
                  = (Inr (edited_message ''doc.txt''), ?wd(''doc.txt'' \<mapsto> concat lines'))
         \<and> length lines' = 3
         \<and> lines' ! 0 = ''Y'' @ newline
         \<and> lines' ! 1 = ''X'' @ newline
         \<and> subseq [''orig'' @ newline] lines'"
    using l(1) by blast
  show ?thesis using m p1 d r0 r1 p2 by blast
qed

text \<open>
  Claim C2. The \<open>i\<close>-th insert in ascending order (counting from 0) is applied to a
  list of \<open>line_count + i\<close> lines. If the line number of some insert is outside
  \<open>[1, line_count + i + 1]\<close>, then \<open>edit_document\<close> raises nothing: it returns the
  out-of-range message for one of the requested line numbers, and the working
  directory is as before.
\<close>

theorem edit_document_out_of_range:
  assumes "wd f = Some doc"
      and "\<exists>i<length inserts.
             \<not> in_range (length (readlines doc) + i) (fst (sort inserts ! i))"
  shows "\<exists>k \<in> fst ` set inserts.
           edit_document wd f inserts = (Inr (out_of_range_message k), wd)"
proof -
  from assms(2) obtain k where k: "apply_inserts (readlines doc) (sort inserts) = Inl k"
    using apply_inserts_Inl_iff[of "readlines doc" "sort inserts"] by auto
  then have "k \<in> fst ` set (sort inserts)" by (rule apply_inserts_Inl_key)
  then have "k \<in> fst ` set inserts" by simp
  moreover have "edit_document wd f inserts = (Inr (out_of_range_message k), wd)"
    using assms(1) k by (simp add: edit_document_def)
  ultimately show ?thesis by blast
qed

lemma str_int_100: "str_int 100 = ''100''"
  by (simp add: str_int_def str_nat.simps digit_char_def)

text \<open>Line number 100 on a one-line file.\<close>

theorem edit_document_out_of_range_witness:
  "[''doc.txt'' \<mapsto> ''orig'' @ newline] ''doc.txt'' = Some (''orig'' @ newline)
   \<and> length (readlines (''orig'' @ newline)) = 1
   \<and> \<not> in_range (length (readlines (''orig'' @ newline)) + 0) (fst (sort [(100 :: int, ''X'')] ! 0))
   \<and> edit_document [''doc.txt'' \<mapsto> ''orig'' @ newline] ''doc.txt'' [(100, ''X'')]
       = (Inr ''Error: Line number 100 is out of range.'', [''doc.txt'' \<mapsto> ''orig'' @ newline])"
proof -
  have r: "readlines (''orig'' @ newline) = [''orig'' @ newline]"
    by (simp add: readlines_def newline_def)
  have h: "\<exists>i<length [(100 :: int, ''X'')].
             \<not> in_range (length (readlines (''orig'' @ newline)) + i)
                 (fst (sort [(100 :: int, ''X'')] ! i))"
    by (simp add: readlines_def newline_def in_range_def)
  show ?thesis
    using edit_document_out_of_range
      [of "[''doc.txt'' \<mapsto> ''orig'' @ newline]" "''doc.txt''" "''orig'' @ newline"
          "[(100, ''X'')]", OF _ h]
    by (simp add: readlines_def newline_def in_range_def out_of_range_message_def str_int_100)
qed

text \<open>
  Claim C10. \<open>edit_document\<close> writes the file only when every insert was applied. With
  no inserts it returns the success message and the working directory is as before.
  When some insert is out of range at the moment it is applied, the working directory
  is as before, also when earlier inserts were already applied to the line list in
  memory, and the success message is not returned. Whenever the working directory has
  changed, the success message was returned and every insert was in range.
\<close>

theorem edit_document_atomic:
  assumes "wd f = Some doc"
  shows "edit_document wd f [] = (Inr (edited_message f), wd)
       \<and> ((\<exists>i<length inserts.
              \<not> in_range (length (readlines doc) + i) (fst (sort inserts ! i)))
            \<longrightarrow> snd (edit_document wd f inserts) = wd
              \<and> fst (edit_document wd f inserts) \<noteq> Inr (edited_message f))
       \<and> (snd (edit_document wd f inserts) \<noteq> wd
            \<longrightarrow> fst (edit_document wd f inserts) = Inr (edited_message f)
              \<and> (\<forall>i<length inserts.
                    in_range (length (readlines doc) + i) (fst (sort inserts ! i))))"
proof (intro conjI impI)
  have "wd(f \<mapsto> doc) = wd" using assms by (rule map_upd_triv)
  then show "edit_document wd f [] = (Inr (edited_message f), wd)"
    using assms by (simp add: edit_document_def writelines_readlines)
next
  assume "\<exists>i<length inserts.
              \<not> in_range (length (readlines doc) + i) (fst (sort inserts ! i))"
  then obtain k where k: "apply_inserts (readlines doc) (sort inserts) = Inl k"
    using apply_inserts_Inl_iff[of "readlines doc" "sort inserts"] by auto
  then show "snd (edit_document wd f inserts) = wd"
    using assms by (simp add: edit_document_def)
  show "fst (edit_document wd f inserts) \<noteq> Inr (edited_message f)"
    using assms k by (simp add: edit_document_def out_of_range_message_def edited_message_def)
next
  assume c: "snd (edit_document wd f inserts) \<noteq> wd"
  then obtain lines' where l: "apply_inserts (readlines doc) (sort inserts) = Inr lines'"
    using assms
    by (cases "apply_inserts (readlines doc) (sort inserts)") (auto simp: edit_document_def)
  then show "fst (edit_document wd f inserts) = Inr (edited_message f)"
    using assms by (simp add: edit_document_def)
  have "\<not> (\<exists>k. apply_inserts (readlines doc) (sort inserts) = Inl k)"
    using l by simp
  then show "\<forall>i<length inserts.
                    in_range (length (readlines doc) + i) (fst (sort inserts ! i))"
    by (simp add: apply_inserts_Inl_iff)
qed

text \<open>
  On a one-line file, the insert at line 1 is applied in memory, the insert at line 5
  is then out of range, and the file is as before.
\<close>

theorem edit_document_atomic_witness:
  "[''doc.txt'' \<mapsto> ''orig'' @ newline] ''doc.txt'' = Some (''orig'' @ newline)
   \<and> edit_document [''doc.txt'' \<mapsto> ''orig'' @ newline] ''doc.txt'' []
       = (Inr (edited_message ''doc.txt''), [''doc.txt'' \<mapsto> ''orig'' @ newline])
   \<and> in_range (length (readlines (''orig'' @ newline)) + 0)
         (fst (sort [(5 :: int, ''Z''), (1, ''Y'')] ! 0))
   \<and> \<not> in_range (length (readlines (''orig'' @ newline)) + 1)
         (fst (sort [(5 :: int, ''Z''), (1, ''Y'')] ! 1))
   \<and> snd (edit_document [''doc.txt'' \<mapsto> ''orig'' @ newline] ''doc.txt'' [(5, ''Z''), (1, ''Y'')])
       = [''doc.txt'' \<mapsto> ''orig'' @ newline]"
proof -
  let ?wd = "[''doc.txt'' \<mapsto> ''orig'' @ newline]"
  let ?ins = "[(5 :: int, ''Z''), (1, ''Y'')]"
  have w: "?wd ''doc.txt'' = Some (''orig'' @ newline)"
    by simp
  have r0: "in_range (length (readlines (''orig'' @ newline)) + 0) (fst (sort ?ins ! 0))"
    by (simp add: readlines_def newline_def in_range_def)
  have r1: "\<not> in_range (length (readlines (''orig'' @ newline)) + 1) (fst (sort ?ins ! 1))"
    by (simp add: readlines_def newline_def in_range_def)
  have "(1 :: nat) < length ?ins" by simp
  with r1 have h: "\<exists>i<length ?ins.
        \<not> in_range (length (readlines (''orig'' @ newline)) + i) (fst (sort ?ins ! i))"
    by blast
  note inst = edit_document_atomic [of ?wd "''doc.txt''" "''orig'' @ newline" ?ins, OF w]
  have p1: "edit_document ?wd ''doc.txt'' [] = (Inr (edited_message ''doc.txt''), ?wd)"
    using inst by (rule conjunct1)
  have p2: "snd (edit_document ?wd ''doc.txt'' ?ins) = ?wd"
    using inst h by blast
  show ?thesis using w p1 r0 r1 p2 by blast
qed

section \<open>Properties of the graphs\<close>



lemma research_graph_fields:
  "edges (create_research_graph llm a1 a2) =
     [(''Search'', ''supervisor''), (''LoanRetriever'', ''supervisor'')]"
  "branches (create_research_graph llm a1 a2) =
     [(''supervisor'', route_next,
       [(''Search'', ''Search''), (''LoanRetriever'', ''LoanRetriever''), (''FINISH'', END)])]"
  "map fst (nodes (create_research_graph llm a1 a2)) = [''Search'', ''LoanRetriever'', ''supervisor'']"
  "entry_point (create_research_graph llm a1 a2) = Some ''supervisor''"
  by (simp_all add: create_research_graph_def StateGraph_def add_node_def add_edge_def
      add_conditional_edges_def set_entry_point_def)

lemma authoring_graph_fields:
  "edges (create_authoring_graph llm b1 b2 b3 b4) =
     [(''DocWriter'', ''supervisor''), (''NoteTaker'', ''supervisor''),
      (''CopyEditor'', ''supervisor''), (''DopenessEditor'', ''supervisor'')]"
  "branches (create_authoring_graph llm b1 b2 b3 b4) =
     [(''supervisor'', route_next,
       [(''DocWriter'', ''DocWriter''), (''NoteTaker'', ''NoteTaker''),
        (''CopyEditor'', ''CopyEditor''), (''DopenessEditor'', ''DopenessEditor''),
        (''FINISH'', END)])]"
  "map fst (nodes (create_authoring_graph llm b1 b2 b3 b4)) =
     [''DocWriter'', ''NoteTaker'', ''CopyEditor'', ''DopenessEditor'', ''supervisor'']"
  "entry_point (create_authoring_graph llm b1 b2 b3 b4) = Some ''supervisor''"
  by (simp_all add: create_authoring_graph_def StateGraph_def add_node_def add_edge_def
      add_conditional_edges_def set_entry_point_def)

lemma supervisor_graph_fields:
  "edges (create_supervisor_graph llm rc ac) =
     [(''Research team'', ''supervisor''), (''Response team'', ''supervisor'')]"
  "branches (create_supervisor_graph llm rc ac) =
     [(''supervisor'', route_next,
       [(''Response team'', ''Response team''), (''Research team'', ''Research team''),
        (''FINISH'', END)])]"
  "map fst (nodes (create_supervisor_graph llm rc ac)) =
     [''Research team'', ''Response team'', ''supervisor'']"
  "entry_point (create_supervisor_graph llm rc ac) = Some ''supervisor''"
  by (simp_all add: create_supervisor_graph_def StateGraph_def add_node_def add_edge_def
      add_conditional_edges_def set_entry_point_def)

lemma workers_of_graphs:
  "workers (create_research_graph llm a1 a2) = [''Search'', ''LoanRetriever'']"
  "workers (create_authoring_graph llm b1 b2 b3 b4) =
     [''DocWriter'', ''NoteTaker'', ''CopyEditor'', ''DopenessEditor'']"
  "workers (create_supervisor_graph llm rc ac) = [''Research team'', ''Response team'']"
  by (simp_all add: workers_def research_graph_fields authoring_graph_fields
      supervisor_graph_fields)

lemma worker_successors:
  assumes "g = create_research_graph llm a1 a2
         \<or> g = create_authoring_graph llm b1 b2 b3 b4
         \<or> g = create_supervisor_graph llm rc ac"
      and "n \<in> set (workers g)"
  shows "successors g n st = Inr [''supervisor'']"
  using assms
  by (auto simp: workers_of_graphs successors_def research_graph_fields authoring_graph_fields
      supervisor_graph_fields)

lemma follows_nth:
  "follows g cs \<Longrightarrow> Suc i < length cs \<Longrightarrow>
   \<exists>targets. step g (cs ! i) = Inr (targets, snd (cs ! Suc i)) \<and> fst (cs ! Suc i) \<in> set targets"
proof (induction g cs arbitrary: i rule: follows.induct)
  case (3 g c c' cs)
  show ?case
  proof (cases i)
    case 0
    then show ?thesis using 3(2) by (auto split: sum.splits)
  next
    case (Suc j)
    then show ?thesis using 3 by simp
  qed
qed simp_all

lemma step_targets:
  "step g c = Inr (targets, st') \<Longrightarrow> successors g (fst c) st' = Inr targets"
  by (auto simp: step_def Let_def split: option.splits sum.splits)

lemma step_state:
  "step g c = Inr (targets, st') \<Longrightarrow>
   \<exists>action delta. map_of (nodes g) (fst c) = Some action
      \<and> action (snd c) = Inr delta \<and> st' = merge_state (snd c) delta"
  by (auto simp: step_def Let_def split: option.splits sum.splits)

lemma worker_edges:
  assumes "g = create_research_graph llm a1 a2
         \<or> g = create_authoring_graph llm b1 b2 b3 b4
         \<or> g = create_supervisor_graph llm rc ac"
  shows "(\<forall>e \<in> set (edges g). fst e \<in> set (workers g) \<and> snd e = ''supervisor'')
       \<and> (\<forall>b \<in> set (branches g). fst b = ''supervisor'')"
  using assms
  by (auto simp: workers_of_graphs research_graph_fields authoring_graph_fields
      supervisor_graph_fields)

text \<open>
  Claim C7. In the research graph, the authoring graph and the top-level graph, every
  unconditional edge leads from a worker to the supervisor and every conditional edge
  starts at the supervisor. So the transition out of a worker is the one to the
  supervisor, in every state, and in every run a worker is followed by the supervisor.
\<close>

theorem workers_return_to_supervisor:
  assumes "g = create_research_graph llm a1 a2
         \<or> g = create_authoring_graph llm b1 b2 b3 b4
         \<or> g = create_supervisor_graph llm rc ac"
  shows "(\<forall>e \<in> set (edges g). fst e \<in> set (workers g) \<and> snd e = ''supervisor'')
       \<and> (\<forall>b \<in> set (branches g). fst b = ''supervisor'')
       \<and> (\<forall>n \<in> set (workers g). \<forall>st. successors g n st = Inr [''supervisor''])
       \<and> (\<forall>cs i. is_run g cs \<and> Suc i < length cs \<and> fst (cs ! i) \<in> set (workers g)
              \<longrightarrow> fst (cs ! Suc i) = ''supervisor'')"
proof -
  have "\<forall>n \<in> set (workers g). \<forall>st. successors g n st = Inr [''supervisor'']"
    using assms worker_successors by blast
  moreover have "\<forall>cs i. is_run g cs \<and> Suc i < length cs \<and> fst (cs ! i) \<in> set (workers g)
              \<longrightarrow> fst (cs ! Suc i) = ''supervisor''"
  proof (intro allI impI)
    fix cs i
    assume a: "is_run g cs \<and> Suc i < length cs \<and> fst (cs ! i) \<in> set (workers g)"
    then have "follows g cs" by (simp add: is_run_def)
    with a obtain targets where
      t: "step g (cs ! i) = Inr (targets, snd (cs ! Suc i))" "fst (cs ! Suc i) \<in> set targets"
      using follows_nth by blast
    have "successors g (fst (cs ! i)) (snd (cs ! Suc i)) = Inr targets"
      using t(1) by (rule step_targets)
    moreover have "successors g (fst (cs ! i)) (snd (cs ! Suc i)) = Inr [''supervisor'']"
      using assms a by (intro worker_successors) auto
    ultimately have "targets = [''supervisor'']" by simp
    with t(2) show "fst (cs ! Suc i) = ''supervisor''" by simp
  qed
  ultimately show ?thesis
    using worker_edges[OF assms] by blast
qed

lemma supervisor_nodes:
  "map_of (nodes (create_research_graph llm a1 a2)) ''supervisor''
     = Some (create_research_supervisor llm None)"
  "map_of (nodes (create_authoring_graph llm b1 b2 b3 b4)) ''supervisor''
     = Some (create_doc_writing_supervisor llm None)"
  by (simp_all add: create_research_graph_def create_authoring_graph_def
      StateGraph_def add_node_def add_edge_def add_conditional_edges_def set_entry_point_def)

lemma supervisor_node_top:
  "\<exists>p. map_of (nodes (create_supervisor_graph llm rc ac)) ''supervisor''
     = Some (create_team_supervisor llm p [''Research team'', ''Response team''])"
  unfolding create_supervisor_graph_def StateGraph_def add_node_def add_edge_def
    add_conditional_edges_def set_entry_point_def Let_def
  by (rule exI) simp

lemma declared_supervisor:
  assumes "g = create_research_graph llm a1 a2 \<and> members = [''Search'', ''LoanRetriever'']
         \<or> g = create_authoring_graph llm b1 b2 b3 b4
             \<and> members = [''DocWriter'', ''NoteTaker'', ''DopenessEditor'', ''CopyEditor'']
         \<or> g = create_supervisor_graph llm rc ac
             \<and> members = [''Research team'', ''Response team'']"
  shows "\<exists>p. map_of (nodes g) ''supervisor'' = Some (create_team_supervisor llm p members)"
  using assms supervisor_node_top[of llm rc ac]
  by (auto simp: supervisor_nodes create_research_supervisor_def create_doc_writing_supervisor_def)

lemma supervisor_successors_invalid:
  assumes "g = create_research_graph llm a1 a2 \<and> members = [''Search'', ''LoanRetriever'']
         \<or> g = create_authoring_graph llm b1 b2 b3 b4
             \<and> members = [''DocWriter'', ''NoteTaker'', ''DopenessEditor'', ''CopyEditor'']
         \<or> g = create_supervisor_graph llm rc ac
             \<and> members = [''Research team'', ''Response team'']"
      and "label \<notin> set (''FINISH'' # members)"
      and "next_label (st :: graph_state) = Some label"
  shows "successors g ''supervisor'' st = Inl (KeyError label)"
  using assms
  by (auto simp: successors_def research_graph_fields authoring_graph_fields
      supervisor_graph_fields route_next_def)

lemma supervisor_successors_valid:
  assumes "g = create_research_graph llm a1 a2 \<and> members = [''Search'', ''LoanRetriever'']
         \<or> g = create_authoring_graph llm b1 b2 b3 b4
             \<and> members = [''DocWriter'', ''NoteTaker'', ''DopenessEditor'', ''CopyEditor'']
         \<or> g = create_supervisor_graph llm rc ac
             \<and> members = [''Research team'', ''Response team'']"
      and "label \<in> set (''FINISH'' # members)"
      and "next_label (st :: graph_state) = Some label"
  shows "successors g ''supervisor'' st = Inr [if label = ''FINISH'' then END else label]"
  using assms
  by (auto simp: successors_def research_graph_fields authoring_graph_fields
      supervisor_graph_fields route_next_def)

lemma supervisor_step:
  assumes "map_of (nodes g) ''supervisor'' = Some action"
      and "action st = Inr delta"
  shows "step g (''supervisor'', st) =
     (case successors g ''supervisor'' (merge_state st delta) of
        Inl e \<Rightarrow> Inl e
      | Inr targets \<Rightarrow> Inr (targets, merge_state st delta))"
  using assms by (simp add: step_def Let_def)

lemma merge_state_next:
  "next_label delta = Some label \<Longrightarrow> next_label (merge_state st delta) = Some label"
  by (simp add: merge_state_def replace_field_def)

lemma create_team_supervisor_answer:
  "messages state = Some ms \<Longrightarrow>
   create_team_supervisor llm p members state = llm p (''FINISH'' # members) ms"
  by (simp add: create_team_supervisor_def)

text \<open>
  Claim C8, as the code has it. In each of the three graphs the supervisor is created
  with the declared members, and the table of the conditional edge has exactly the
  declared members and \<open>FINISH\<close> as its labels, with no default entry. For a label
  outside them, selecting the transition out of the supervisor raises \<open>KeyError\<close>: no
  node is selected. This holds for the label in the state, and for the step of the
  supervisor node whenever what the node returns carries such a label. The supervisor
  itself checks nothing: when the backend answers with such a label, the supervisor
  returns the answer as it is and the label is merged into the state; the label is
  refused only by the lookup in the table. A declared label selects its own node, and
  \<open>FINISH\<close> selects the end of the graph.
\<close>

theorem invalid_label_fails_at_lookup:
  assumes "g = create_research_graph llm a1 a2 \<and> members = [''Search'', ''LoanRetriever'']
         \<or> g = create_authoring_graph llm b1 b2 b3 b4
             \<and> members = [''DocWriter'', ''NoteTaker'', ''DopenessEditor'', ''CopyEditor'']
         \<or> g = create_supervisor_graph llm rc ac
             \<and> members = [''Research team'', ''Response team'']"
      and "label \<notin> set (''FINISH'' # members)"
  shows "(\<exists>p. map_of (nodes g) ''supervisor'' = Some (create_team_supervisor llm p members))
       \<and> (\<forall>st :: graph_state. next_label st = Some label
              \<longrightarrow> successors g ''supervisor'' st = Inl (KeyError label))
       \<and> (\<forall>action st delta. map_of (nodes g) ''supervisor'' = Some action \<and> action st = Inr delta
                \<and> next_label delta = Some label
              \<longrightarrow> step g (''supervisor'', st) = Inl (KeyError label))
       \<and> (\<forall>p st ms delta. messages st = Some ms
                \<and> llm p (''FINISH'' # members) ms = Inr delta \<and> next_label delta = Some label
              \<longrightarrow> create_team_supervisor llm p members st = Inr delta
                \<and> next_label (merge_state st delta) = Some label)
       \<and> (\<forall>(st :: graph_state) valid. valid \<in> set (''FINISH'' # members) \<and> next_label st = Some valid
              \<longrightarrow> successors g ''supervisor'' st
                    = Inr [if valid = ''FINISH'' then END else valid])"
proof (intro conjI allI impI)
  show "\<exists>p. map_of (nodes g) ''supervisor'' = Some (create_team_supervisor llm p members)"
    using assms(1) by (rule declared_supervisor)
next
  fix st :: graph_state
  assume "next_label st = Some label"
  with assms show "successors g ''supervisor'' st = Inl (KeyError label)"
    by (rule supervisor_successors_invalid)
next
  fix action and st :: graph_state and delta
  assume a: "map_of (nodes g) ''supervisor'' = Some action \<and> action st = Inr delta
                \<and> next_label delta = Some label"
  then have "next_label (merge_state st delta) = Some label"
    by (simp add: merge_state_next)
  with assms have "successors g ''supervisor'' (merge_state st delta) = Inl (KeyError label)"
    by (rule supervisor_successors_invalid)
  then show "step g (''supervisor'', st) = Inl (KeyError label)"
    using supervisor_step[of g action st delta] a by simp
next
  fix p and st :: graph_state and ms delta
  assume a: "messages st = Some ms
                \<and> llm p (''FINISH'' # members) ms = Inr delta \<and> next_label delta = Some label"
  then show "create_team_supervisor llm p members st = Inr delta"
    by (simp add: create_team_supervisor_answer)
  from a show "next_label (merge_state st delta) = Some label"
    by (simp add: merge_state_next)
next
  fix st :: graph_state and valid
  assume "valid \<in> set (''FINISH'' # members) \<and> next_label st = Some valid"
  then show "successors g ''supervisor'' st = Inr [if valid = ''FINISH'' then END else valid]"
    using assms(1) supervisor_successors_valid by blast
qed

text \<open>
  Claim C4. For a final state with a non-empty message list, \<open>join_graph\<close> returns a
  partial state that holds exactly one message, the last one, and no other field.
\<close>

theorem join_graph_last_message:
  assumes "messages response = Some ms" and "ms \<noteq> []"
  shows "\<exists>delta. join_graph response = Inr delta
           \<and> messages delta = Some [last ms]
           \<and> length (msgs delta) = 1
           \<and> team_members delta = None \<and> next_label delta = None \<and> current_files delta = None"
  using assms by (simp add: join_graph_def empty_dict_def msgs_def)

text \<open>A transcript of five messages is projected to its fifth message.\<close>

theorem join_graph_last_message_witness:
  "messages \<lparr>messages = Some [\<lparr>content = ''m1'', name = None\<rparr>,
                              \<lparr>content = ''m2'', name = Some ''supervisor''\<rparr>,
                              \<lparr>content = ''m3'', name = Some ''Search''\<rparr>,
                              \<lparr>content = ''m4'', name = Some ''LoanRetriever''\<rparr>,
                              \<lparr>content = ''m5'', name = Some ''Search''\<rparr>],
             team_members = None, next_label = Some ''FINISH'', current_files = None\<rparr>
     = Some [\<lparr>content = ''m1'', name = None\<rparr>,
             \<lparr>content = ''m2'', name = Some ''supervisor''\<rparr>,
             \<lparr>content = ''m3'', name = Some ''Search''\<rparr>,
             \<lparr>content = ''m4'', name = Some ''LoanRetriever''\<rparr>,
             \<lparr>content = ''m5'', name = Some ''Search''\<rparr>]
   \<and> join_graph \<lparr>messages = Some [\<lparr>content = ''m1'', name = None\<rparr>,
                              \<lparr>content = ''m2'', name = Some ''supervisor''\<rparr>,
                              \<lparr>content = ''m3'', name = Some ''Search''\<rparr>,
                              \<lparr>content = ''m4'', name = Some ''LoanRetriever''\<rparr>,
                              \<lparr>content = ''m5'', name = Some ''Search''\<rparr>],
             team_members = None, next_label = Some ''FINISH'', current_files = None\<rparr>
     = Inr \<lparr>messages = Some [\<lparr>content = ''m5'', name = Some ''Search''\<rparr>],
            team_members = None, next_label = None, current_files = None\<rparr>"
  using join_graph_last_message
    [of "\<lparr>messages = Some [\<lparr>content = ''m1'', name = None\<rparr>,
                              \<lparr>content = ''m2'', name = Some ''supervisor''\<rparr>,
                              \<lparr>content = ''m3'', name = Some ''Search''\<rparr>,
                              \<lparr>content = ''m4'', name = Some ''LoanRetriever''\<rparr>,
                              \<lparr>content = ''m5'', name = Some ''Search''\<rparr>],
             team_members = None, next_label = Some ''FINISH'', current_files = None\<rparr>"
        "[\<lparr>content = ''m1'', name = None\<rparr>,
             \<lparr>content = ''m2'', name = Some ''supervisor''\<rparr>,
             \<lparr>content = ''m3'', name = Some ''Search''\<rparr>,
             \<lparr>content = ''m4'', name = Some ''LoanRetriever''\<rparr>,
             \<lparr>content = ''m5'', name = Some ''Search''\<rparr>]"]
  by auto

lemma msgs_merge_state: "msgs (merge_state s delta) = msgs s @ msgs delta"
  by (simp add: merge_state_def merge_messages_def msgs_def split: option.splits)

lemma follows_Cons: "follows g (c # cs) \<Longrightarrow> follows g cs"
  by (cases cs) simp_all

lemma follows_prefix:
  "follows g cs \<Longrightarrow> i \<le> j \<Longrightarrow> j < length cs \<Longrightarrow>
   prefix (msgs (snd (cs ! i))) (msgs (snd (cs ! j)))"
proof (induction "j - i" arbitrary: j)
  case 0
  then show ?case by simp
next
  case (Suc d)
  then obtain j' where j': "j = Suc j'" "i \<le> j'" "d = j' - i"
    by (cases j) auto
  have "prefix (msgs (snd (cs ! i))) (msgs (snd (cs ! j')))"
    using Suc j' by simp
  moreover obtain targets where "step g (cs ! j') = Inr (targets, snd (cs ! Suc j'))"
    using follows_nth[of g cs j'] Suc.prems j' by auto
  then have "prefix (msgs (snd (cs ! j'))) (msgs (snd (cs ! Suc j')))"
    using step_state[of g "cs ! j'"] by (auto simp: msgs_merge_state)
  ultimately show ?case using j' by (auto intro: prefix_order.order_trans)
qed

text \<open>
  Claim C6. Merging a partial state appends its messages to the existing ones and
  replaces every other field that it holds. So the message list never shrinks, and
  along any sequence of steps of any graph the messages of an earlier state are a
  prefix of the messages of every later state.
\<close>

theorem messages_only_grow:
  "msgs (merge_state s delta) = msgs s @ msgs delta
   \<and> length (msgs s) \<le> length (msgs (merge_state s delta))
   \<and> team_members (merge_state s delta)
       = (case team_members delta of None \<Rightarrow> team_members s | Some v \<Rightarrow> Some v)
   \<and> next_label (merge_state s delta)
       = (case next_label delta of None \<Rightarrow> next_label s | Some v \<Rightarrow> Some v)
   \<and> current_files (merge_state s delta)
       = (case current_files delta of None \<Rightarrow> current_files s | Some v \<Rightarrow> Some v)
   \<and> (follows g cs \<and> i \<le> j \<and> j < length cs
        \<longrightarrow> prefix (msgs (snd (cs ! i))) (msgs (snd (cs ! j)))
          \<and> length (msgs (snd (cs ! i))) \<le> length (msgs (snd (cs ! j))))"
proof -
  have "follows g cs \<and> i \<le> j \<and> j < length cs
        \<longrightarrow> prefix (msgs (snd (cs ! i))) (msgs (snd (cs ! j)))
          \<and> length (msgs (snd (cs ! i))) \<le> length (msgs (snd (cs ! j)))"
    using follows_prefix[of g cs i j] by (auto dest: prefix_length_le)
  then show ?thesis
    by (simp add: msgs_merge_state) (simp add: merge_state_def merge_messages_def replace_field_def)
qed

text \<open>
  Claim C9, as the code has it. A team supervisor returns the answer of the backend as
  it is: with no \<open>messages\<close> in the state it raises \<open>KeyError\<close>, and otherwise it
  returns or raises exactly what the backend does for the supervisor's prompt and
  options. So when the answer holds the field \<open>next\<close> alone, as the schema of
  \<open>route\<close> asks, what the supervisor returns sets \<open>next\<close> to the chosen label and
  no other field: merging it leaves the messages, the team members and the current
  files of any state as they are.
\<close>

theorem supervisor_returns_backend_answer:
  "create_team_supervisor llm system_prompt members state
     = (case messages state of
          None \<Rightarrow> Inl (KeyError ''messages'')
        | Some ms \<Rightarrow> llm system_prompt (''FINISH'' # members) ms)
   \<and> (messages state = Some ms
        \<and> llm system_prompt (''FINISH'' # members) ms
            = Inr \<lparr>messages = None, team_members = None, next_label = Some label,
                   current_files = None\<rparr>
      \<longrightarrow> create_team_supervisor llm system_prompt members state
            = Inr \<lparr>messages = None, team_members = None, next_label = Some label,
                   current_files = None\<rparr>
        \<and> merge_state s \<lparr>messages = None, team_members = None, next_label = Some label,
                          current_files = None\<rparr>
            = s\<lparr>next_label := Some label\<rparr>)"
  by (simp add: create_team_supervisor_def merge_state_def merge_messages_def replace_field_def)

text \<open>
  A backend whose answer holds \<open>messages\<close> and \<open>team_members\<close> beside \<open>next\<close>: the
  supervisor returns all three, and merging appends the message and replaces the team
  members.
\<close>

theorem supervisor_sets_only_next_counterexample:
  "create_team_supervisor chatty_llm ''route'' [''Search'', ''LoanRetriever''] example_state
     = Inr \<lparr>messages = Some [\<lparr>content = ''noted'', name = None\<rparr>],
            team_members = Some ''nobody'',
            next_label = Some ''Search'',
            current_files = None\<rparr>
   \<and> messages (merge_state example_state
        \<lparr>messages = Some [\<lparr>content = ''noted'', name = None\<rparr>],
         team_members = Some ''nobody'',
         next_label = Some ''Search'',
         current_files = None\<rparr>)
     = Some [\<lparr>content = ''What are Pell Grants?'', name = None\<rparr>,
             \<lparr>content = ''noted'', name = None\<rparr>]
   \<and> messages example_state = Some [\<lparr>content = ''What are Pell Grants?'', name = None\<rparr>]
   \<and> team_members (merge_state example_state
        \<lparr>messages = Some [\<lparr>content = ''noted'', name = None\<rparr>],
         team_members = Some ''nobody'',
         next_label = Some ''Search'',
         current_files = None\<rparr>) = Some ''nobody''
   \<and> team_members example_state = None"
  by (simp add: create_team_supervisor_def chatty_llm_def example_state_def enter_chain_def
      empty_dict_def merge_state_def merge_messages_def replace_field_def)

lemma example_follows:
  "follows (create_research_graph example_llm example_agent example_agent) example_run"
proof -
  let ?g = "create_research_graph example_llm example_agent example_agent"
  have n1: "map_of (nodes ?g) ''supervisor''
      = Some (create_team_supervisor example_llm
          (''You are a supervisor tasked with managing a conversation between the''
        @ '' following workers:  Search, LoanRetriever. Given the following user request,''
        @ '' determine the subject to be researched and respond with the worker to act next. Each worker will perform a''
        @ '' task and respond with their results and status. ''
        @ '' You should never ask your team to do anything beyond research. They are not required to write content or posts.''
        @ '' You should only pass tasks to workers that are specifically research focused.''
        @ '' When finished, respond with FINISH.'') [''Search'', ''LoanRetriever''])"
    by (simp add: supervisor_nodes create_research_supervisor_def)
  have a1: "create_team_supervisor example_llm
          (''You are a supervisor tasked with managing a conversation between the''
        @ '' following workers:  Search, LoanRetriever. Given the following user request,''
        @ '' determine the subject to be researched and respond with the worker to act next. Each worker will perform a''
        @ '' task and respond with their results and status. ''
        @ '' You should never ask your team to do anything beyond research. They are not required to write content or posts.''
        @ '' You should only pass tasks to workers that are specifically research focused.''
        @ '' When finished, respond with FINISH.'') [''Search'', ''LoanRetriever''] example_state
      = Inr (empty_dict\<lparr>next_label := Some ''Search''\<rparr>)"
    by (simp add: create_team_supervisor_def example_llm_def example_state_def enter_chain_def
        empty_dict_def)
  have m1: "merge_state example_state (empty_dict\<lparr>next_label := Some ''Search''\<rparr>)
      = example_state\<lparr>next_label := Some ''Search''\<rparr>"
    by (simp add: merge_state_def merge_messages_def replace_field_def empty_dict_def)
  have s1: "step ?g (''supervisor'', example_state)
      = Inr ([''Search''], example_state\<lparr>next_label := Some ''Search''\<rparr>)"
    by (subst supervisor_step[OF n1 a1])
       (simp add: m1 successors_def research_graph_fields route_next_def)
  have n2: "map_of (nodes ?g) ''Search'' = Some (\<lambda>state. agent_node state example_agent ''Search'')"
    by (simp add: create_research_graph_def StateGraph_def add_node_def add_edge_def
        add_conditional_edges_def set_entry_point_def)
  have s2: "step ?g (''Search'', example_state\<lparr>next_label := Some ''Search''\<rparr>)
      = Inr ([''supervisor''],
          example_state\<lparr>messages := Some [\<lparr>content = ''What are Pell Grants?'', name = None\<rparr>,
                                       \<lparr>content = ''found'', name = Some ''Search''\<rparr>],
                     next_label := Some ''Search''\<rparr>)"
    by (simp add: step_def n2 agent_node_def example_agent_def successors_def
        research_graph_fields merge_state_def merge_messages_def msgs_def replace_field_def empty_dict_def
        example_state_def enter_chain_def)
  show ?thesis
    by (simp add: example_run_def s1 s2)
qed

text \<open>A run of the research graph: supervisor, Search, supervisor.\<close>

theorem messages_only_grow_witness:
  "follows (create_research_graph example_llm example_agent example_agent) example_run
   \<and> (0 :: nat) \<le> 2 \<and> 2 < length example_run
   \<and> msgs (snd (example_run ! 0)) = [\<lparr>content = ''What are Pell Grants?'', name = None\<rparr>]
   \<and> msgs (snd (example_run ! 2)) = [\<lparr>content = ''What are Pell Grants?'', name = None\<rparr>,
                                      \<lparr>content = ''found'', name = Some ''Search''\<rparr>]
   \<and> prefix (msgs (snd (example_run ! 0))) (msgs (snd (example_run ! 2)))
   \<and> length (msgs (snd (example_run ! 0))) \<le> length (msgs (snd (example_run ! 2)))"
proof -
  have l: "(0 :: nat) \<le> 2 \<and> 2 < length example_run"
    by (simp add: example_run_def)
  have m: "msgs (snd (example_run ! 0)) = [\<lparr>content = ''What are Pell Grants?'', name = None\<rparr>]"
    "msgs (snd (example_run ! 2)) = [\<lparr>content = ''What are Pell Grants?'', name = None\<rparr>,
                                      \<lparr>content = ''found'', name = Some ''Search''\<rparr>]"
    by (simp_all add: example_run_def example_state_def enter_chain_def empty_dict_def msgs_def)
  have "prefix (msgs (snd (example_run ! 0))) (msgs (snd (example_run ! 2)))
   \<and> length (msgs (snd (example_run ! 0))) \<le> length (msgs (snd (example_run ! 2)))"
    using messages_only_grow
      [where g = "create_research_graph example_llm example_agent example_agent"
         and cs = example_run and i = 0 and j = 2]
      example_follows l
    by blast
  then show ?thesis using example_follows l m by blast
qed

text \<open>In that run the worker \<open>Search\<close> is followed by the supervisor.\<close>

theorem workers_return_to_supervisor_witness:
  "is_run (create_research_graph example_llm example_agent example_agent) example_run
   \<and> Suc 1 < length example_run
   \<and> fst (example_run ! 1) \<in> set (workers (create_research_graph example_llm example_agent example_agent))
   \<and> fst (example_run ! 1) = ''Search''
   \<and> fst (example_run ! Suc 1) = ''supervisor''
   \<and> successors (create_research_graph example_llm example_agent example_agent) ''Search''
        example_state = Inr [''supervisor'']"
proof -
  let ?g = "create_research_graph example_llm example_agent example_agent"
  have r: "is_run ?g example_run"
    using example_follows by (simp add: is_run_def research_graph_fields) (simp add: example_run_def)
  have l: "Suc 1 < length example_run" "fst (example_run ! 1) = ''Search''"
    by (simp_all add: example_run_def)
  have w: "''Search'' \<in> set (workers ?g)"
    by (simp add: workers_of_graphs)
  note inst = workers_return_to_supervisor
    [where g = ?g and llm = example_llm and ?a1.0 = example_agent and ?a2.0 = example_agent,
     OF disjI1, OF refl]
  have "fst (example_run ! Suc 1) = ''supervisor''"
    using inst r l w by metis
  moreover have "successors ?g ''Search'' example_state = Inr [''supervisor'']"
    using inst w by blast
  ultimately show ?thesis using r l w by simp
qed

text \<open>
  A backend that answers \<open>Writer\<close>, which the research team does not declare. The
  supervisor of the research graph returns the answer as it is, and the label is merged
  into the state: the supervisor validates nothing.
\<close>

theorem invalid_routing_decision_counterexample:
  "''Writer'' \<notin> set (''FINISH'' # [''Search'', ''LoanRetriever''])
   \<and> map_of (nodes (create_research_graph stray_llm example_agent example_agent)) ''supervisor''
       = Some (create_research_supervisor stray_llm None)
   \<and> create_research_supervisor stray_llm None example_state
       = Inr \<lparr>messages = None, team_members = None, next_label = Some ''Writer'',
              current_files = None\<rparr>
   \<and> next_label (merge_state example_state
          \<lparr>messages = None, team_members = None, next_label = Some ''Writer'',
           current_files = None\<rparr>) = Some ''Writer''"
  by (simp add: supervisor_nodes create_research_supervisor_def create_team_supervisor_def
      stray_llm_def example_state_def enter_chain_def empty_dict_def merge_state_def
      replace_field_def)

text \<open>
  With that backend the step of the supervisor of the research graph raises
  \<open>KeyError\<close> at the lookup, and \<open>FINISH\<close> selects the end of the graph.
\<close>

theorem invalid_label_fails_at_lookup_witness:
  "''Writer'' \<notin> set (''FINISH'' # [''Search'', ''LoanRetriever''])
   \<and> messages example_state = Some [\<lparr>content = ''What are Pell Grants?'', name = None\<rparr>]
   \<and> create_team_supervisor stray_llm ''route'' [''Search'', ''LoanRetriever''] example_state
       = Inr (empty_dict\<lparr>next_label := Some ''Writer''\<rparr>)
   \<and> next_label (merge_state example_state (empty_dict\<lparr>next_label := Some ''Writer''\<rparr>))
       = Some ''Writer''
   \<and> step (create_research_graph stray_llm example_agent example_agent)
        (''supervisor'', example_state) = Inl (KeyError ''Writer'')
   \<and> successors (create_research_graph stray_llm example_agent example_agent) ''supervisor''
        (example_state\<lparr>next_label := Some ''Writer''\<rparr>) = Inl (KeyError ''Writer'')
   \<and> successors (create_research_graph stray_llm example_agent example_agent) ''supervisor''
        (example_state\<lparr>next_label := Some ''FINISH''\<rparr>) = Inr [END]"
proof -
  let ?g = "create_research_graph stray_llm example_agent example_agent"
  let ?d = "empty_dict\<lparr>next_label := Some ''Writer''\<rparr>"
  have o: "''Writer'' \<notin> set (''FINISH'' # [''Search'', ''LoanRetriever''])"
    by simp
  have m: "messages example_state = Some [\<lparr>content = ''What are Pell Grants?'', name = None\<rparr>]"
    by (simp add: example_state_def enter_chain_def empty_dict_def)
  have b: "stray_llm ''route'' (''FINISH'' # [''Search'', ''LoanRetriever''])
             [\<lparr>content = ''What are Pell Grants?'', name = None\<rparr>] = Inr ?d"
    by (simp add: stray_llm_def)
  have nd: "next_label ?d = Some ''Writer''"
    by simp
  have n: "map_of (nodes ?g) ''supervisor'' = Some (create_research_supervisor stray_llm None)"
    by (simp add: supervisor_nodes)
  have a: "create_research_supervisor stray_llm None example_state = Inr ?d"
    by (simp add: create_research_supervisor_def create_team_supervisor_def stray_llm_def
        example_state_def enter_chain_def empty_dict_def)
  note inst = invalid_label_fails_at_lookup
    [where g = ?g and llm = stray_llm and ?a1.0 = example_agent and ?a2.0 = example_agent
       and members = "[''Search'', ''LoanRetriever'']" and label = "''Writer''",
     OF disjI1, OF conjI, OF refl refl o]
  have p1: "create_team_supervisor stray_llm ''route'' [''Search'', ''LoanRetriever''] example_state
       = Inr ?d \<and> next_label (merge_state example_state ?d) = Some ''Writer''"
    using inst m b nd by blast
  have p2: "step ?g (''supervisor'', example_state) = Inl (KeyError ''Writer'')"
    using inst n a nd by blast
  have "next_label (example_state\<lparr>next_label := Some ''Writer''\<rparr>) = Some ''Writer''"
    by simp
  then have p3: "successors ?g ''supervisor'' (example_state\<lparr>next_label := Some ''Writer''\<rparr>)
      = Inl (KeyError ''Writer'')"
    using inst by blast
  have "''FINISH'' \<in> set (''FINISH'' # [''Search'', ''LoanRetriever''])
      \<and> next_label (example_state\<lparr>next_label := Some ''FINISH''\<rparr>) = Some ''FINISH''"
    by simp
  then have "successors ?g ''supervisor'' (example_state\<lparr>next_label := Some ''FINISH''\<rparr>)
      = Inr [if ''FINISH'' = ''FINISH'' then END else ''FINISH'']"
    using inst by blast
  then have p4: "successors ?g ''supervisor'' (example_state\<lparr>next_label := Some ''FINISH''\<rparr>)
      = Inr [END]"
    by simp
  show ?thesis using o m p1 p2 p3 p4 by blast
qed

text \<open>A supervisor whose backend answers with \<open>next\<close> alone, set to \<open>Search\<close>.\<close>

theorem supervisor_returns_backend_answer_witness:
  "messages example_state = Some [\<lparr>content = ''What are Pell Grants?'', name = None\<rparr>]
   \<and> example_llm ''route'' (''FINISH'' # [''Search'', ''LoanRetriever''])
         [\<lparr>content = ''What are Pell Grants?'', name = None\<rparr>]
       = Inr \<lparr>messages = None, team_members = None, next_label = Some ''Search'',
              current_files = None\<rparr>
   \<and> create_team_supervisor example_llm ''route'' [''Search'', ''LoanRetriever''] example_state
       = Inr \<lparr>messages = None, team_members = None, next_label = Some ''Search'',
              current_files = None\<rparr>
   \<and> merge_state example_state
         \<lparr>messages = None, team_members = None, next_label = Some ''Search'',
          current_files = None\<rparr>
       = example_state\<lparr>next_label := Some ''Search''\<rparr>"
proof -
  have m: "messages example_state = Some [\<lparr>content = ''What are Pell Grants?'', name = None\<rparr>]"
    by (simp add: example_state_def enter_chain_def empty_dict_def)
  have b: "example_llm ''route'' (''FINISH'' # [''Search'', ''LoanRetriever''])
         [\<lparr>content = ''What are Pell Grants?'', name = None\<rparr>]
       = Inr \<lparr>messages = None, team_members = None, next_label = Some ''Search'',
              current_files = None\<rparr>"
    by (simp add: example_llm_def empty_dict_def)
  note inst = supervisor_returns_backend_answer
    [where llm = example_llm and system_prompt = "''route''"
       and members = "[''Search'', ''LoanRetriever'']" and state = example_state
       and ms = "[\<lparr>content = ''What are Pell Grants?'', name = None\<rparr>]"
       and label = "''Search''" and s = example_state]
  show ?thesis using inst m b by blast
qed

end
